theory Spec2Isabelle
  imports Complex_Main "HOL-Library.List_Lexorder" "HOL-Library.Char_ord"
begin

section \<open>Data model (types.ts)\<close>

text \<open>
  The interfaces of the repository become records. The field \<open>id\<close> of \<open>User\<close> and of
  \<open>HistoricalAnalysis\<close> is written \<open>user_id\<close> and \<open>analysis_id\<close>, since \<open>id\<close> is the
  identity function of HOL. The union type \<open>'user' | 'admin'\<close> is a datatype.
\<close>

record AnalysisResult =
  plant_name :: string
  is_healthy :: bool
  disease_name :: string
  confidence_score :: real
  description :: string
  possible_causes :: "string list"
  recommended_actions :: "string list"

datatype role = user | admin

record User =
  user_id :: string
  email :: string
  role :: role

text \<open>
  An element of the array kept under the key \<open>plant_health_users\<close>: the fields of a
  \<open>User\<close> and the password (\<open>adminUser\<close> and \<open>newUser\<close> in App.tsx).
\<close>

record StoredUser = User +
  password :: string

text \<open>
  \<open>timestamp\<close> is written by \<open>new Date().toISOString()\<close>. A \<open>Date\<close> is modelled by its
  time value, the milliseconds since the epoch that \<open>Date.now()\<close> also returns; the field
  holds that time value, of which the ISO-8601 string is the rendering.
\<close>

record HistoricalAnalysis =
  analysis_id :: string
  userEmail :: string
  analysis :: AnalysisResult
  timestamp :: int
  imageUrl :: string

section \<open>The browser's localStorage\<close>

text \<open>
  The program uses three keys. An absent key is \<open>None\<close> (\<open>getItem\<close> returns null). Every
  value is written with \<open>JSON.stringify\<close> and read back with \<open>JSON.parse\<close>, so a key holds
  the value itself. The writes of the registry and of the session marker, and
  \<open>removeItem\<close>, are taken to succeed; the write of the history sits inside the \<open>try\<close>
  block of its handler and may throw (the quota), see \<open>Services\<close>.
\<close>

record Storage =
  plant_health_users :: "StoredUser list option"
  plant_health_currentUser :: "User option"
  plant_health_analyses :: "HistoricalAnalysis list option"

definition adminUser :: StoredUser where
  "adminUser = \<lparr>user_id = ''admin-001'', email = ''admin@plant.health'', role = admin,
                 password = ''admin123''\<rparr>"

definition initializeMockUsers :: "Storage \<Rightarrow> Storage" where
  "initializeMockUsers ls =
     (case plant_health_users ls of
        None \<Rightarrow> ls\<lparr>plant_health_users := Some [adminUser]\<rparr>
      | Some us \<Rightarrow> ls)"

text \<open>\<open>JSON.parse(localStorage.getItem('plant_health_users') || '[]')\<close>\<close>

definition stored_users :: "Storage \<Rightarrow> StoredUser list" where
  "stored_users ls = (case plant_health_users ls of None \<Rightarrow> [] | Some us \<Rightarrow> us)"

section \<open>Template strings and string primitives of JavaScript\<close>

text \<open>
  \<open>`analysis-${Date.now()}`\<close> renders an integer number in decimal, with a minus sign
  when it is negative.
\<close>

definition digit_char :: "nat \<Rightarrow> char" where
  "digit_char d = ''0123456789'' ! d"

function decimal :: "nat \<Rightarrow> string" where
  "decimal n = (if n < 10 then [digit_char n] else decimal (n div 10) @ [digit_char (n mod 10)])"
  by pat_completeness auto
termination
  by (relation "measure (\<lambda>n. n)") auto

declare decimal.simps [simp del]

definition number_toString :: "int \<Rightarrow> string" where
  "number_toString i = (if i < 0 then CHR ''-'' # decimal (nat (- i)) else decimal (nat i))"

text \<open>\<open>indexOf\<close> is \<open>-1\<close> when the character does not occur.\<close>

definition indexOf :: "string \<Rightarrow> char \<Rightarrow> int" where
  "indexOf s c = (if c \<in> set s then int (length (takeWhile (\<lambda>x. x \<noteq> c) s)) else - 1)"

text \<open>
  \<open>substring(a, b)\<close> clamps both arguments to \<open>[0, length]\<close> and swaps them when the first
  is the larger one.
\<close>

definition substring :: "string \<Rightarrow> int \<Rightarrow> int \<Rightarrow> string" where
  "substring s a b =
     (let n = int (length s);
          a' = max 0 (min a n);
          b' = max 0 (min b n);
          lo = min a' b';
          hi = max a' b'
      in take (nat (hi - lo)) (drop (nat lo) s))"

section \<open>The state of the App component\<close>

text \<open>
  The seven \<open>useState\<close> cells of \<open>App\<close>, and the localStorage the handlers read and write.
\<close>

record App =
  imagePreview :: "string option"
  analysisResult :: "AnalysisResult option"
  isLoading :: bool
  error :: "string option"
  currentUser :: "User option"
  historicalAnalyses :: "HistoricalAnalysis list"
  authError :: "string option"
  localStorage :: Storage

text \<open>
  The initial values of the cells, followed by the mount effect: the session marker is
  restored without a check, and the stored history is loaded.
\<close>

definition mount :: "Storage \<Rightarrow> App" where
  "mount ls =
     \<lparr>imagePreview = None, analysisResult = None, isLoading = False, error = None,
      currentUser = plant_health_currentUser ls,
      historicalAnalyses = (case plant_health_analyses ls of None \<Rightarrow> [] | Some hs \<Rightarrow> hs),
      authError = None,
      localStorage = ls\<rparr>"

text \<open>Loading the module runs \<open>initializeMockUsers()\<close>, then the component mounts.\<close>

definition boot :: "Storage \<Rightarrow> App" where
  "boot ls = mount (initializeMockUsers ls)"

section \<open>handleImageSelect\<close>

text \<open>
  The argument is \<open>reader.result\<close> when \<open>onloadend\<close> fires: the data URL, or null when the
  read failed.
\<close>

definition handleImageSelect :: "string option \<Rightarrow> App \<Rightarrow> App" where
  "handleImageSelect res st = st\<lparr>imagePreview := res, analysisResult := None, error := None\<rparr>"

section \<open>handleAnalyzeClick\<close>

text \<open>
  The two awaited services are outside the repository's source: they are parameters. A
  rejected promise carries the thrown value, of which the handler only asks whether it is
  an \<open>Error\<close> and, if so, its message. The third parameter is the browser's answer to
  \<open>localStorage.setItem('plant_health_analyses', ...)\<close>: nothing when the value is
  stored, the thrown value when it does not fit the quota.
\<close>

datatype thrown = Error string | NonError

record Services =
  fileToBase64 :: "string \<Rightarrow> thrown + string"
  analyzePlantHealth :: "string \<Rightarrow> string \<Rightarrow> thrown + AnalysisResult"
  setItem_analyses :: "HistoricalAnalysis list \<Rightarrow> thrown option"

text \<open>\<open>!imagePreview\<close> holds for null and for the empty string.\<close>

definition falsy :: "string option \<Rightarrow> bool" where
  "falsy s = (case s of None \<Rightarrow> True | Some x \<Rightarrow> x = [])"

text \<open>
  The handler is an async function. Up to its first \<open>await\<close> it runs at the click: the
  guard, and the three state updates. What it uses afterwards it has captured at the click:
  \<open>imagePreview\<close>, \<open>currentUser\<close> and \<open>historicalAnalyses\<close> of the render it belongs to.
\<close>

record Captured =
  c_imagePreview :: string
  c_currentUser :: User
  c_historicalAnalyses :: "HistoricalAnalysis list"

definition handleAnalyzeClick_begin :: "App \<Rightarrow> App \<times> Captured option" where
  "handleAnalyzeClick_begin st =
     (case (imagePreview st, currentUser st) of
        (Some img, Some u) \<Rightarrow>
          if falsy (Some img) then (st\<lparr>error := Some ''Please select an image first.''\<rparr>, None)
          else (st\<lparr>isLoading := True, error := None, analysisResult := None\<rparr>,
                Some \<lparr>c_imagePreview = img, c_currentUser = u,
                      c_historicalAnalyses = historicalAnalyses st\<rparr>)
      | _ \<Rightarrow> (st\<lparr>error := Some ''Please select an image first.''\<rparr>, None))"

definition mimeType :: "string \<Rightarrow> string" where
  "mimeType img = substring img (indexOf img CHR '':'' + 1) (indexOf img CHR '';'')"

text \<open>The two awaits of the \<open>try\<close> block: the first rejection leaves the block.\<close>

definition awaited :: "Services \<Rightarrow> string \<Rightarrow> thrown + AnalysisResult" where
  "awaited svc img =
     (case fileToBase64 svc img of
        Inl e \<Rightarrow> Inl e
      | Inr base64Image \<Rightarrow> analyzePlantHealth svc base64Image (mimeType img))"

definition newAnalysis :: "Captured \<Rightarrow> AnalysisResult \<Rightarrow> int \<Rightarrow> int \<Rightarrow> HistoricalAnalysis" where
  "newAnalysis c result now_id now_ts =
     \<lparr>analysis_id = ''analysis-'' @ number_toString now_id,
      userEmail = email (c_currentUser c),
      analysis = result,
      timestamp = now_ts,
      imageUrl = c_imagePreview c\<rparr>"

text \<open>\<open>err instanceof Error ? err.message : "An unknown error occurred during analysis."\<close>\<close>

definition error_message :: "thrown \<Rightarrow> string" where
  "error_message err =
     (case err of Error message \<Rightarrow> message
               | NonError \<Rightarrow> ''An unknown error occurred during analysis.'')"

text \<open>
  The rest of the handler, run when the awaited calls have settled: \<open>now_id\<close> is what
  \<open>Date.now()\<close> returns and \<open>now_ts\<close> the time value of \<open>new Date()\<close>. When the calls
  have resolved, the result and the new history are set before \<open>setItem\<close> is called: if
  it throws, the \<open>catch\<close> block sets the error on top of them and the storage keeps its
  old value. The \<open>finally\<close> block clears \<open>isLoading\<close> on every path.
\<close>

definition handleAnalyzeClick_finish :: "Services \<Rightarrow> int \<Rightarrow> int \<Rightarrow> Captured \<Rightarrow> App \<Rightarrow> App" where
  "handleAnalyzeClick_finish svc now_id now_ts c st =
     (case awaited svc (c_imagePreview c) of
        Inr result \<Rightarrow>
          (let updatedAnalyses = newAnalysis c result now_id now_ts # c_historicalAnalyses c
           in case setItem_analyses svc updatedAnalyses of
                None \<Rightarrow>
                  st\<lparr>analysisResult := Some result,
                     historicalAnalyses := updatedAnalyses,
                     localStorage := (localStorage st)\<lparr>plant_health_analyses := Some updatedAnalyses\<rparr>,
                     isLoading := False\<rparr>
              | Some err \<Rightarrow>
                  st\<lparr>analysisResult := Some result,
                     historicalAnalyses := updatedAnalyses,
                     error := Some (error_message err),
                     isLoading := False\<rparr>)
      | Inl err \<Rightarrow>
          st\<lparr>error := Some (error_message err), isLoading := False\<rparr>)"

text \<open>One click handled to its end, with no other handler running in between.\<close>

definition handleAnalyzeClick :: "Services \<Rightarrow> int \<Rightarrow> int \<Rightarrow> App \<Rightarrow> App" where
  "handleAnalyzeClick svc now_id now_ts st =
     (case handleAnalyzeClick_begin st of
        (st', None) \<Rightarrow> st'
      | (st', Some c) \<Rightarrow> handleAnalyzeClick_finish svc now_id now_ts c st')"

section \<open>handleLogin, handleRegister, handleLogout\<close>

definition userData :: "StoredUser \<Rightarrow> User" where
  "userData u = \<lparr>user_id = user_id u, email = email u, role = role u\<rparr>"

definition handleLogin :: "string \<Rightarrow> string \<Rightarrow> App \<Rightarrow> App" where
  "handleLogin e p st =
     (case find (\<lambda>u. email u = e \<and> password u = p) (stored_users (localStorage st)) of
        Some u \<Rightarrow>
          st\<lparr>authError := None,
             currentUser := Some (userData u),
             localStorage := (localStorage st)\<lparr>plant_health_currentUser := Some (userData u)\<rparr>\<rparr>
      | None \<Rightarrow> st\<lparr>authError := Some ''Invalid email or password.''\<rparr>)"

definition newUser :: "string \<Rightarrow> string \<Rightarrow> int \<Rightarrow> StoredUser" where
  "newUser e p now = \<lparr>user_id = ''user-'' @ number_toString now, email = e, role = user,
                      password = p\<rparr>"

definition handleRegister :: "string \<Rightarrow> string \<Rightarrow> int \<Rightarrow> App \<Rightarrow> App" where
  "handleRegister e p now st =
     (let users = stored_users (localStorage st)
      in if list_ex (\<lambda>u. email u = e) users
         then st\<lparr>authError := Some ''An account with this email already exists.''\<rparr>
         else st\<lparr>authError := None,
                 currentUser := Some (userData (newUser e p now)),
                 localStorage := (localStorage st)
                   \<lparr>plant_health_users := Some (users @ [newUser e p now]),
                    plant_health_currentUser := Some (userData (newUser e p now))\<rparr>\<rparr>)"

definition handleLogout :: "App \<Rightarrow> App" where
  "handleLogout st =
     st\<lparr>currentUser := None,
        localStorage := (localStorage st)\<lparr>plant_health_currentUser := None\<rparr>\<rparr>"

section \<open>What App renders\<close>

text \<open>
  The component tree as a value: the authentication page with its error; for an admin the
  dashboard with its \<open>analyses\<close> prop; otherwise the main area with the props of the
  uploader and of the result display. The first argument of the last two is the user the
  header shows.
\<close>

datatype Surface =
    AuthPage "string option"
  | AdminDashboard User "HistoricalAnalysis list"
  | UserMain User "string option" bool "AnalysisResult option" "string option"

definition App_render :: "App \<Rightarrow> Surface" where
  "App_render st =
     (case currentUser st of
        None \<Rightarrow> AuthPage (authError st)
      | Some u \<Rightarrow>
          if role u = admin then AdminDashboard u (historicalAnalyses st)
          else UserMain u (imagePreview st) (isLoading st) (analysisResult st) (error st))"

text \<open>The history a rendered surface is given, if it is given one.\<close>

fun analyses_prop :: "Surface \<Rightarrow> HistoricalAnalysis list option" where
  "analyses_prop (AuthPage e) = None"
| "analyses_prop (AdminDashboard u hs) = Some hs"
| "analyses_prop (UserMain u img l r e) = None"

text \<open>
  The listing as section 4.4 of the specification words it, to compare with what the
  component gives each role.
\<close>

definition spec_listForPrincipal :: "User \<Rightarrow> HistoricalAnalysis list \<Rightarrow> HistoricalAnalysis list" where
  "spec_listForPrincipal p hs =
     (if role p = admin then hs else filter (\<lambda>h. userEmail h = email p) hs)"

section \<open>Runs\<close>

text \<open>
  A session is a sequence of handler calls, each carrying what the environment supplies
  to it: the file reader's result, the services and the clock readings.
\<close>

datatype Event =
    ImageSelect "string option"
  | AnalyzeClick Services int int
  | Login string string
  | Register string string int
  | Logout

fun handle :: "Event \<Rightarrow> App \<Rightarrow> App" where
  "handle (ImageSelect res) st = handleImageSelect res st"
| "handle (AnalyzeClick svc now_id now_ts) st = handleAnalyzeClick svc now_id now_ts st"
| "handle (Login e p) st = handleLogin e p st"
| "handle (Register e p now) st = handleRegister e p now st"
| "handle Logout st = handleLogout st"

fun run :: "Event list \<Rightarrow> App \<Rightarrow> App" where
  "run [] st = st"
| "run (ev # evs) st = run evs (handle ev st)"

text \<open>
  The records a run creates, in the order of their creation, each with the reading of
  \<open>Date.now()\<close> its id was made from: a handler call creates one when it is a click that
  passes the guard and whose awaited calls resolve.
\<close>

fun completed :: "Event \<Rightarrow> App \<Rightarrow> (int \<times> HistoricalAnalysis) list" where
  "completed (AnalyzeClick svc now_id now_ts) st =
     (case handleAnalyzeClick_begin st of
        (st', None) \<Rightarrow> []
      | (st', Some c) \<Rightarrow>
          (case awaited svc (c_imagePreview c) of
             Inl err \<Rightarrow> []
           | Inr result \<Rightarrow> [(now_id, newAnalysis c result now_id now_ts)]))"
| "completed ev st = []"

fun completions :: "Event list \<Rightarrow> App \<Rightarrow> (int \<times> HistoricalAnalysis) list" where
  "completions [] st = []"
| "completions (ev # evs) st = completed ev st @ completions evs (handle ev st)"

text \<open>
  The storage outlives the page: a session boots from the storage the previous one left,
  and the first one from a storage without any key.
\<close>

definition empty_storage :: Storage where
  "empty_storage = \<lparr>plant_health_users = None, plant_health_currentUser = None,
                     plant_health_analyses = None\<rparr>"

definition session :: "Event list \<Rightarrow> Storage \<Rightarrow> Storage" where
  "session evs ls = localStorage (run evs (boot ls))"

fun lifetime :: "Event list list \<Rightarrow> Storage \<Rightarrow> Storage" where
  "lifetime [] ls = ls"
| "lifetime (evs # rest) ls = lifetime rest (session evs ls)"

section \<open>Concrete inputs\<close>

definition leaf_png :: string where
  "leaf_png = ''data:image/png;base64,AAAA''"

definition blight :: AnalysisResult where
  "blight = \<lparr>plant_name = ''Tomato'', is_healthy = False, disease_name = ''Blight'',
              confidence_score = 1, description = ''Dark spots'',
              possible_causes = [''Fungus''], recommended_actions = [''Remove leaves'']\<rparr>"

definition resolving :: Services where
  "resolving = \<lparr>fileToBase64 = (\<lambda>img. Inr ''AAAA''),
                 analyzePlantHealth = (\<lambda>base64Image mime. Inr blight),
                 setItem_analyses = (\<lambda>hs. None)\<rparr>"

definition rejecting :: Services where
  "rejecting = \<lparr>fileToBase64 = (\<lambda>img. Inr ''AAAA''),
                 analyzePlantHealth = (\<lambda>base64Image mime. Inl (Error ''Failed to analyze'')),
                 setItem_analyses = (\<lambda>hs. None)\<rparr>"

text \<open>A service that throws a value that is not an \<open>Error\<close>, and a storage that is full.\<close>

definition rejecting_other :: Services where
  "rejecting_other = \<lparr>fileToBase64 = (\<lambda>img. Inl NonError),
                       analyzePlantHealth = (\<lambda>base64Image mime. Inr blight),
                       setItem_analyses = (\<lambda>hs. None)\<rparr>"

definition quota_full :: Services where
  "quota_full = \<lparr>fileToBase64 = (\<lambda>img. Inr ''AAAA''),
                  analyzePlantHealth = (\<lambda>base64Image mime. Inr blight),
                  setItem_analyses = (\<lambda>hs. Some (Error ''The quota has been exceeded.''))\<rparr>"

definition alice :: User where
  "alice = \<lparr>user_id = ''user-1000'', email = ''alice@x.com'', role = user\<rparr>"

text \<open>A first visit: alice registers at clock reading 1000 and picks a leaf photo.\<close>

definition alice_ready :: App where
  "alice_ready =
     run [Register ''alice@x.com'' ''pw1'' 1000, ImageSelect (Some leaf_png)] (boot empty_storage)"

text \<open>The first analysis of alice resolves; later the seeded administrator logs in.\<close>

definition alice_analysed :: App where
  "alice_analysed = handleAnalyzeClick resolving 2000 2001 alice_ready"

definition admin_session :: App where
  "admin_session = run [Logout, Login ''admin@plant.health'' ''admin123''] alice_analysed"

section \<open>The guard and the capture of handleAnalyzeClick\<close>

lemma begin_rejected:
  "falsy (imagePreview st) \<or> currentUser st = None \<Longrightarrow>
   handleAnalyzeClick_begin st = (st\<lparr>error := Some ''Please select an image first.''\<rparr>, None)"
  by (auto simp: handleAnalyzeClick_begin_def falsy_def split: option.splits)

lemma begin_accepted:
  "imagePreview st = Some img \<Longrightarrow> img \<noteq> [] \<Longrightarrow> currentUser st = Some u \<Longrightarrow>
   handleAnalyzeClick_begin st =
     (st\<lparr>isLoading := True, error := None, analysisResult := None\<rparr>,
      Some \<lparr>c_imagePreview = img, c_currentUser = u, c_historicalAnalyses = historicalAnalyses st\<rparr>)"
  by (simp add: handleAnalyzeClick_begin_def falsy_def)

lemma begin_captures:
  "handleAnalyzeClick_begin st = (st', Some c) \<Longrightarrow>
   c_historicalAnalyses c = historicalAnalyses st \<and> historicalAnalyses st' = historicalAnalyses st"
  by (auto simp: handleAnalyzeClick_begin_def split: option.splits if_splits)

lemma begin_history:
  "handleAnalyzeClick_begin st = (st', None) \<Longrightarrow> historicalAnalyses st' = historicalAnalyses st"
  by (auto simp: handleAnalyzeClick_begin_def split: option.splits if_splits)

section \<open>The history along a run\<close>

lemma handle_history:
  "historicalAnalyses (handle ev st) = rev (map snd (completed ev st)) @ historicalAnalyses st"
proof (cases ev)
  case (AnalyzeClick svc now_id now_ts)
  obtain st' c where b: "handleAnalyzeClick_begin st = (st', c)" by (cases "handleAnalyzeClick_begin st")
  show ?thesis
  proof (cases c)
    case None
    with b AnalyzeClick show ?thesis
      by (simp add: handleAnalyzeClick_def begin_history)
  next
    case (Some cap)
    with b begin_captures [of st st' cap] AnalyzeClick show ?thesis
      by (simp add: handleAnalyzeClick_def handleAnalyzeClick_finish_def Let_def
          split: sum.splits option.splits)
  qed
qed (simp_all add: handleImageSelect_def handleLogin_def handleRegister_def handleLogout_def Let_def
       split: option.splits)

lemma run_history:
  "historicalAnalyses (run evs st) = rev (map snd (completions evs st)) @ historicalAnalyses st"
  by (induction evs arbitrary: st) (simp_all add: handle_history)

lemma completed_ids:
  "map (analysis_id \<circ> snd) (completed ev st) =
   map (\<lambda>t. ''analysis-'' @ number_toString t) (map fst (completed ev st))"
  by (cases ev) (auto simp: newAnalysis_def split: prod.splits option.splits sum.splits)

lemma completions_ids:
  "map (analysis_id \<circ> snd) (completions evs st) =
   map (\<lambda>t. ''analysis-'' @ number_toString t) (map fst (completions evs st))"
  by (induction evs arbitrary: st) (simp_all add: completed_ids)

section \<open>The decimal rendering is injective\<close>

lemma digit_char_inject: "a < 10 \<Longrightarrow> b < 10 \<Longrightarrow> digit_char a = digit_char b \<Longrightarrow> a = b"
proof -
  assume a: "a < 10" and b: "b < 10" and eq: "digit_char a = digit_char b"
  have "distinct ''0123456789''" by simp
  moreover from a have "a < length ''0123456789''" by simp
  moreover from b have "b < length ''0123456789''" by simp
  ultimately show "a = b" using eq unfolding digit_char_def by (simp only: nth_eq_iff_index_eq)
qed

lemma digit_char_not_minus: "d < 10 \<Longrightarrow> digit_char d \<noteq> CHR ''-''"
proof
  assume d: "d < 10" and eq: "digit_char d = CHR ''-''"
  from d have "d < length ''0123456789''" by simp
  then have "''0123456789'' ! d \<in> set ''0123456789''" by (rule nth_mem)
  with eq show False unfolding digit_char_def by simp
qed

lemma decimal_nonempty: "decimal n \<noteq> []"
  by (subst decimal.simps) simp

lemma decimal_hd_digit: "\<exists>d<10. hd (decimal n) = digit_char d"
proof (induction n rule: decimal.induct)
  case (1 n)
  show ?case
  proof (cases "n < 10")
    case True
    then show ?thesis by (subst decimal.simps) auto
  next
    case False
    with 1 obtain d where "d < 10" "hd (decimal (n div 10)) = digit_char d" by blast
    with False show ?thesis
      by (subst decimal.simps) (auto simp: decimal_nonempty)
  qed
qed

lemma decimal_inject: "decimal n = decimal m \<Longrightarrow> n = m"
proof (induction n arbitrary: m rule: decimal.induct)
  case (1 n)
  show ?case
  proof (cases "n < 10")
    case True
    note n = this
    show ?thesis
    proof (cases "m < 10")
      case True
      with n 1(2) have "digit_char n = digit_char m"
        by (simp add: decimal.simps [of n] decimal.simps [of m])
      with n True show ?thesis by (rule digit_char_inject)
    next
      case False
      with n 1(2) have "[digit_char n] = decimal (m div 10) @ [digit_char (m mod 10)]"
        by (simp add: decimal.simps [of n] decimal.simps [of m])
      then show ?thesis using decimal_nonempty [of "m div 10"] by auto
    qed
  next
    case False
    note n = this
    show ?thesis
    proof (cases "m < 10")
      case True
      with n 1(2) have "decimal (n div 10) @ [digit_char (n mod 10)] = [digit_char m]"
        by (simp add: decimal.simps [of n] decimal.simps [of m])
      then show ?thesis using decimal_nonempty [of "n div 10"] by auto
    next
      case False
      with n 1(2) have "decimal (n div 10) @ [digit_char (n mod 10)] = decimal (m div 10) @ [digit_char (m mod 10)]"
        by (simp add: decimal.simps [of n] decimal.simps [of m])
      then have d: "decimal (n div 10) = decimal (m div 10)" and l: "digit_char (n mod 10) = digit_char (m mod 10)"
        by simp_all
      from 1(1) [OF n d] have "n div 10 = m div 10" .
      moreover from l have "n mod 10 = m mod 10" by (intro digit_char_inject) simp_all
      ultimately show ?thesis by (metis div_mult_mod_eq)
    qed
  qed
qed

lemma number_toString_inject: "number_toString i = number_toString j \<Longrightarrow> i = j"
proof -
  assume eq: "number_toString i = number_toString j"
  have neg: "decimal a \<noteq> CHR ''-'' # decimal b" for a b
  proof
    assume h: "decimal a = CHR ''-'' # decimal b"
    obtain d where "d < 10" "hd (decimal a) = digit_char d" using decimal_hd_digit by blast
    with h have "digit_char d = CHR ''-''" by simp
    with \<open>d < 10\<close> show False using digit_char_not_minus by blast
  qed
  show "i = j"
  proof (cases "i < 0")
    case True
    note i = this
    show ?thesis
    proof (cases "j < 0")
      case True
      with i eq have "decimal (nat (- i)) = decimal (nat (- j))" by (simp add: number_toString_def)
      then have "nat (- i) = nat (- j)" by (rule decimal_inject)
      with i True show ?thesis by simp
    next
      case False
      with i eq neg [of "nat j" "nat (- i)"] show ?thesis by (simp add: number_toString_def)
    qed
  next
    case False
    note i = this
    show ?thesis
    proof (cases "j < 0")
      case True
      with i eq neg [of "nat i" "nat (- j)"] show ?thesis by (simp add: number_toString_def)
    next
      case False
      with i eq have "decimal (nat i) = decimal (nat j)" by (simp add: number_toString_def)
      then have "nat i = nat j" by (rule decimal_inject)
      with i False show ?thesis by simp
    qed
  qed
qed

lemma analysis_id_inj: "inj (\<lambda>t. ''analysis-'' @ number_toString t)"
  by (rule injI) (simp add: number_toString_inject)

lemma distinct_analysis_ids:
  "distinct (map (\<lambda>t. ''analysis-'' @ number_toString t) ts) = distinct ts"
proof -
  have "inj_on (\<lambda>t. ''analysis-'' @ number_toString t) (set ts)"
    using analysis_id_inj by (rule inj_on_subset) simp
  then show ?thesis by (simp add: distinct_map)
qed

section \<open>The registry only grows\<close>



lemma handle_registry_grows:
  "\<exists>added. stored_users (localStorage (handle ev st)) = stored_users (localStorage st) @ added"
proof (cases ev)
  case (AnalyzeClick svc now_id now_ts)
  then show ?thesis
    by (auto simp: handleAnalyzeClick_def handleAnalyzeClick_begin_def handleAnalyzeClick_finish_def
        stored_users_def Let_def split: option.splits sum.splits if_splits)
next
  case (Register e p now)
  then show ?thesis by (simp add: handleRegister_def Let_def stored_users_def)
qed (simp_all add: handleImageSelect_def handleLogin_def handleLogout_def stored_users_def
      split: option.splits)

lemma run_registry_grows:
  "\<exists>added. stored_users (localStorage (run evs st)) = stored_users (localStorage st) @ added"
proof (induction evs arbitrary: st)
  case Nil
  show ?case by simp
next
  case (Cons ev evs)
  from handle_registry_grows [of ev st] obtain a where
    a: "stored_users (localStorage (handle ev st)) = stored_users (localStorage st) @ a" by blast
  from Cons [of "handle ev st"] obtain b where
    b: "stored_users (localStorage (run evs (handle ev st))) = stored_users (localStorage (handle ev st)) @ b"
    by blast
  from a b show ?case by simp
qed

lemma boot_storage: "localStorage (boot ls) = initializeMockUsers ls"
  by (simp add: boot_def mount_def)

lemma boot_seeded:
  "plant_health_users ls = None \<or> adminUser \<in> set (stored_users ls) \<Longrightarrow>
   adminUser \<in> set (stored_users (localStorage (boot ls)))"
  by (auto simp: boot_storage initializeMockUsers_def stored_users_def split: option.splits)

lemma session_seeded:
  "plant_health_users ls = None \<or> adminUser \<in> set (stored_users ls) \<Longrightarrow>
   adminUser \<in> set (stored_users (session evs ls))"
proof -
  assume "plant_health_users ls = None \<or> adminUser \<in> set (stored_users ls)"
  then have "adminUser \<in> set (stored_users (localStorage (boot ls)))" by (rule boot_seeded)
  moreover from run_registry_grows [of evs "boot ls"] obtain added where
    "stored_users (localStorage (run evs (boot ls))) = stored_users (localStorage (boot ls)) @ added"
    by blast
  ultimately show ?thesis by (simp add: session_def)
qed

lemma lifetime_seeded:
  "plant_health_users ls = None \<or> adminUser \<in> set (stored_users ls) \<Longrightarrow>
   plant_health_users (lifetime ss ls) = None \<or> adminUser \<in> set (stored_users (lifetime ss ls))"
proof (induction ss arbitrary: ls)
  case Nil
  then show ?case by simp
next
  case (Cons evs ss)
  from session_seeded [OF Cons.prems, of evs]
  have "plant_health_users (session evs ls) = None \<or> adminUser \<in> set (stored_users (session evs ls))"
    by simp
  from Cons.IH [OF this] show ?case by simp
qed

section \<open>Evaluation at concrete inputs\<close>

lemmas model_defs = boot_def mount_def initializeMockUsers_def empty_storage_def
  handleRegister_def handleLogin_def handleLogout_def handleImageSelect_def
  handleAnalyzeClick_def handleAnalyzeClick_begin_def handleAnalyzeClick_finish_def
  stored_users_def adminUser_def newUser_def userData_def session_def falsy_def
  awaited_def newAnalysis_def resolving_def rejecting_def rejecting_other_def quota_full_def alice_def alice_ready_def leaf_png_def
  alice_analysed_def admin_session_def error_message_def Let_def

lemma rendered_numbers:
  "number_toString 999 = ''999''" "number_toString 1000 = ''1000''"
  "number_toString 2000 = ''2000''" "number_toString 3000 = ''3000''"
  "number_toString 5000 = ''5000''"
  by (simp_all add: number_toString_def decimal.simps digit_char_def)

lemma alice_ready_fields:
  "imagePreview alice_ready = Some leaf_png \<and> leaf_png \<noteq> [] \<and> currentUser alice_ready = Some alice
 \<and> historicalAnalyses alice_ready = [] \<and> isLoading alice_ready = False"
  by (simp add: model_defs rendered_numbers)

lemma awaited_resolving: "awaited resolving img = Inr blight"
  by (simp add: awaited_def resolving_def)

lemma awaited_quota_full: "awaited quota_full img = Inr blight"
  by (simp add: awaited_def quota_full_def)

lemma analysis_ids_determine_readings:
  "map (\<lambda>t. ''analysis-'' @ number_toString t) ts =
   map (\<lambda>t. ''analysis-'' @ number_toString t) ts' \<Longrightarrow> ts = ts'"
  using analysis_id_inj by (simp add: inj_map_eq_map)

section \<open>Two clicks in flight\<close>

text \<open>
  The completion of a click writes the history it captured at the click, not the current
  one: when two accepted clicks are in flight, the second completion drops the record of
  the first.
\<close>

lemma second_completion_overwrites:
  "handleAnalyzeClick_begin st = (st1, Some c1) \<Longrightarrow> handleAnalyzeClick_begin st1 = (st2, Some c2) \<Longrightarrow>
   awaited svc (c_imagePreview c2) = Inr result \<Longrightarrow>
   historicalAnalyses (handleAnalyzeClick_finish svc now_id now_ts c2
      (handleAnalyzeClick_finish svc' now_id' now_ts' c1 st2)) =
     newAnalysis c2 result now_id now_ts # historicalAnalyses st"
  using begin_captures [of st st1 c1] begin_captures [of st1 st2 c2]
  by (simp add: handleAnalyzeClick_finish_def Let_def split: option.splits)

section \<open>The history listing by role\<close>

text \<open>
  C1, as the code has it. For a current user with role \<open>admin\<close> the component renders the
  dashboard and gives it the whole history, unfiltered and in its stored order (newest
  first), which is the listing of the specification for an admin. For a current user with
  role \<open>user\<close> it renders the main area, whose props are the image preview, the loading
  flag, the result and the error: no history is given to it, filtered or not.
\<close>

theorem history_by_role:
  assumes "currentUser st = Some p"
  shows "(role p = admin \<longrightarrow>
           App_render st = AdminDashboard p (historicalAnalyses st)
         \<and> analyses_prop (App_render st) = Some (historicalAnalyses st)
         \<and> analyses_prop (App_render st) = Some (spec_listForPrincipal p (historicalAnalyses st)))
       \<and> (role p = user \<longrightarrow>
           App_render st = UserMain p (imagePreview st) (isLoading st) (analysisResult st) (error st)
         \<and> analyses_prop (App_render st) = None)"
  using assms by (simp add: App_render_def spec_listForPrincipal_def)

theorem history_by_role_witness:
  "currentUser admin_session = Some (userData adminUser) \<and> role (userData adminUser) = admin
 \<and> analyses_prop (App_render admin_session) = Some (historicalAnalyses admin_session)
 \<and> map userEmail (historicalAnalyses admin_session) = [''alice@x.com'']
 \<and> currentUser alice_analysed = Some alice \<and> role alice = user
 \<and> analyses_prop (App_render alice_analysed) = None"
proof -
  have a: "currentUser admin_session = Some (userData adminUser)"
    by (simp add: model_defs)
  have r: "role (userData adminUser) = admin"
    by (simp add: userData_def adminUser_def)
  have h: "map userEmail (historicalAnalyses admin_session) = [''alice@x.com'']"
    by (simp add: model_defs rendered_numbers)
  have u: "currentUser alice_analysed = Some alice"
    by (simp add: model_defs rendered_numbers)
  have v: "role alice = user"
    by (simp add: alice_def)
  from history_by_role [OF a] history_by_role [OF u] a r h u v show ?thesis by simp
qed

text \<open>
  alice, a \<open>user\<close>, owns the one record of the history; the listing of the
  specification is that record, and the surface rendered for alice is given no history.
\<close>

theorem history_by_role_counterexample:
  "currentUser alice_analysed = Some alice \<and> role alice = user
 \<and> map userEmail (spec_listForPrincipal alice (historicalAnalyses alice_analysed)) = [''alice@x.com'']
 \<and> analyses_prop (App_render alice_analysed) \<noteq> Some (spec_listForPrincipal alice (historicalAnalyses alice_analysed))"
  by (simp add: model_defs rendered_numbers spec_listForPrincipal_def App_render_def)

section \<open>The analysis pipeline\<close>

text \<open>
  C2, as the code has it. The handler never reads \<open>isLoading\<close>: whether a click goes on to
  the awaited services depends only on the image and the current user. A click while
  \<open>isLoading\<close> is set, with an image selected and a user logged in, is accepted like any
  other: it sets the flag again, clears error and result, and captures image, user and
  history for a further call of the services.
\<close>

theorem analyze_click_ignores_isLoading:
  "snd (handleAnalyzeClick_begin (st\<lparr>isLoading := b\<rparr>)) = snd (handleAnalyzeClick_begin st)
 \<and> (snd (handleAnalyzeClick_begin st) \<noteq> None) = (\<not> falsy (imagePreview st) \<and> currentUser st \<noteq> None)
 \<and> (isLoading st \<and> imagePreview st = Some img \<and> img \<noteq> [] \<and> currentUser st = Some u \<longrightarrow>
      handleAnalyzeClick_begin st =
        (st\<lparr>isLoading := True, error := None, analysisResult := None\<rparr>,
         Some \<lparr>c_imagePreview = img, c_currentUser = u, c_historicalAnalyses = historicalAnalyses st\<rparr>))"
  by (auto simp: handleAnalyzeClick_begin_def falsy_def split: option.splits)

theorem analyze_click_ignores_isLoading_witness:
  "isLoading (fst (handleAnalyzeClick_begin alice_ready))
 \<and> imagePreview (fst (handleAnalyzeClick_begin alice_ready)) = Some leaf_png \<and> leaf_png \<noteq> []
 \<and> currentUser (fst (handleAnalyzeClick_begin alice_ready)) = Some alice
 \<and> handleAnalyzeClick_begin (fst (handleAnalyzeClick_begin alice_ready)) =
      (fst (handleAnalyzeClick_begin alice_ready),
       Some \<lparr>c_imagePreview = leaf_png, c_currentUser = alice, c_historicalAnalyses = []\<rparr>)"
proof -
  let ?s = "fst (handleAnalyzeClick_begin alice_ready)"
  from alice_ready_fields have i: "imagePreview alice_ready = Some leaf_png"
    and n: "leaf_png \<noteq> []" and u: "currentUser alice_ready = Some alice"
    and h: "historicalAnalyses alice_ready = []" by simp_all
  from begin_accepted [OF i n u] i u h
  have f: "isLoading ?s \<and> imagePreview ?s = Some leaf_png \<and> currentUser ?s = Some alice
     \<and> historicalAnalyses ?s = [] \<and> error ?s = None \<and> analysisResult ?s = None"
    by simp
  then have "?s\<lparr>isLoading := True, error := None, analysisResult := None\<rparr> = ?s" by simp
  with analyze_click_ignores_isLoading [where st = ?s and b = True and img = leaf_png and u = alice] f n
  show ?thesis by simp
qed

text \<open>
  A first click of alice is accepted and sets \<open>isLoading\<close>; a second click in the state it
  leaves, before the first has completed, is accepted as well.
\<close>

theorem analyze_click_ignores_isLoading_counterexample:
  "isLoading (fst (handleAnalyzeClick_begin alice_ready))
 \<and> snd (handleAnalyzeClick_begin alice_ready) =
      Some \<lparr>c_imagePreview = leaf_png, c_currentUser = alice, c_historicalAnalyses = []\<rparr>
 \<and> snd (handleAnalyzeClick_begin (fst (handleAnalyzeClick_begin alice_ready))) =
      Some \<lparr>c_imagePreview = leaf_png, c_currentUser = alice, c_historicalAnalyses = []\<rparr>"
proof -
  from alice_ready_fields have i: "imagePreview alice_ready = Some leaf_png"
    and n: "leaf_png \<noteq> []" and u: "currentUser alice_ready = Some alice"
    and h: "historicalAnalyses alice_ready = []" by simp_all
  from begin_accepted [OF i n u] i u h n show ?thesis
    by (simp add: handleAnalyzeClick_begin_def falsy_def)
qed

text \<open>
  C4. A click without a selected image (null or the empty string) or without a current
  user only sets the error to "Please select an image first.": the handler returns before
  its first await, so no service is called, \<open>isLoading\<close> keeps its value, and neither the
  history nor the storage changes.
\<close>

theorem startAnalysis_precondition:
  assumes "falsy (imagePreview st) \<or> currentUser st = None"
  shows "handleAnalyzeClick svc now_id now_ts st = st\<lparr>error := Some ''Please select an image first.''\<rparr>
       \<and> snd (handleAnalyzeClick_begin st) = None
       \<and> error (handleAnalyzeClick svc now_id now_ts st) = Some ''Please select an image first.''
       \<and> isLoading (handleAnalyzeClick svc now_id now_ts st) = isLoading st
       \<and> historicalAnalyses (handleAnalyzeClick svc now_id now_ts st) = historicalAnalyses st
       \<and> localStorage (handleAnalyzeClick svc now_id now_ts st) = localStorage st"
  using begin_rejected [OF assms] by (simp add: handleAnalyzeClick_def)

theorem startAnalysis_precondition_witness:
  "(falsy (imagePreview (boot empty_storage)) \<or> currentUser (boot empty_storage) = None)
 \<and> error (handleAnalyzeClick resolving 2000 2001 (boot empty_storage)) = Some ''Please select an image first.''
 \<and> isLoading (handleAnalyzeClick resolving 2000 2001 (boot empty_storage)) = False
 \<and> historicalAnalyses (handleAnalyzeClick resolving 2000 2001 (boot empty_storage)) = []"
proof -
  have h: "falsy (imagePreview (boot empty_storage)) \<or> currentUser (boot empty_storage) = None"
    by (simp add: boot_def mount_def falsy_def)
  have v: "isLoading (boot empty_storage) = False \<and> historicalAnalyses (boot empty_storage) = []"
    by (simp add: boot_def mount_def initializeMockUsers_def empty_storage_def)
  from startAnalysis_precondition [OF h, of resolving 2000 2001] h v show ?thesis by simp
qed

text \<open>
  C5. When one of the awaited calls of an accepted click rejects, the completion of that
  click, in whatever state it finds, sets the error to the message of the thrown \<open>Error\<close>,
  or to "An unknown error occurred during analysis." for any other thrown value, clears
  \<open>isLoading\<close> and changes nothing else: the history and the storage are as they were.
  Handled to its end with no other handler in between, the click leaves the state it
  started from with that error, no result and \<open>isLoading\<close> false.
\<close>

theorem startAnalysis_failure:
  assumes "imagePreview st = Some img" and "img \<noteq> []" and "currentUser st = Some u"
    and "awaited svc img = Inl err"
  shows "handleAnalyzeClick_begin st =
           (st\<lparr>isLoading := True, error := None, analysisResult := None\<rparr>,
            Some \<lparr>c_imagePreview = img, c_currentUser = u,
                  c_historicalAnalyses = historicalAnalyses st\<rparr>)
       \<and> handleAnalyzeClick_finish svc now_id now_ts
            \<lparr>c_imagePreview = img, c_currentUser = u, c_historicalAnalyses = historicalAnalyses st\<rparr> st2 =
           st2\<lparr>error := Some (case err of Error message \<Rightarrow> message
                                | NonError \<Rightarrow> ''An unknown error occurred during analysis.''),
               isLoading := False\<rparr>
       \<and> historicalAnalyses (handleAnalyzeClick_finish svc now_id now_ts
            \<lparr>c_imagePreview = img, c_currentUser = u, c_historicalAnalyses = historicalAnalyses st\<rparr> st2) =
           historicalAnalyses st2
       \<and> localStorage (handleAnalyzeClick_finish svc now_id now_ts
            \<lparr>c_imagePreview = img, c_currentUser = u, c_historicalAnalyses = historicalAnalyses st\<rparr> st2) =
           localStorage st2
       \<and> isLoading (handleAnalyzeClick_finish svc now_id now_ts
            \<lparr>c_imagePreview = img, c_currentUser = u, c_historicalAnalyses = historicalAnalyses st\<rparr> st2) =
           False
       \<and> error (handleAnalyzeClick svc now_id now_ts st) =
           Some (case err of Error message \<Rightarrow> message
                           | NonError \<Rightarrow> ''An unknown error occurred during analysis.'')
       \<and> analysisResult (handleAnalyzeClick svc now_id now_ts st) = None
       \<and> historicalAnalyses (handleAnalyzeClick svc now_id now_ts st) = historicalAnalyses st
       \<and> localStorage (handleAnalyzeClick svc now_id now_ts st) = localStorage st
       \<and> isLoading (handleAnalyzeClick svc now_id now_ts st) = False
       \<and> handleAnalyzeClick svc now_id now_ts st =
           st\<lparr>isLoading := False,
              error := Some (case err of Error message \<Rightarrow> message
                                   | NonError \<Rightarrow> ''An unknown error occurred during analysis.''),
              analysisResult := None\<rparr>"
  using begin_accepted [OF assms(1-3)] assms(4)
  by (simp add: handleAnalyzeClick_def handleAnalyzeClick_finish_def error_message_def)

theorem startAnalysis_failure_witness:
  "imagePreview alice_ready = Some leaf_png \<and> leaf_png \<noteq> [] \<and> currentUser alice_ready = Some alice
 \<and> awaited rejecting leaf_png = Inl (Error ''Failed to analyze'')
 \<and> error (handleAnalyzeClick rejecting 2000 2001 alice_ready) = Some ''Failed to analyze''
 \<and> historicalAnalyses (handleAnalyzeClick rejecting 2000 2001 alice_ready) = []
 \<and> isLoading (handleAnalyzeClick rejecting 2000 2001 alice_ready) = False
 \<and> awaited rejecting_other leaf_png = Inl NonError
 \<and> error (handleAnalyzeClick rejecting_other 2000 2001 alice_ready) =
      Some ''An unknown error occurred during analysis.''
 \<and> historicalAnalyses (handleAnalyzeClick_finish rejecting 3000 3001
      \<lparr>c_imagePreview = leaf_png, c_currentUser = alice, c_historicalAnalyses = []\<rparr> alice_analysed) =
      historicalAnalyses alice_analysed
 \<and> error (handleAnalyzeClick_finish rejecting 3000 3001
      \<lparr>c_imagePreview = leaf_png, c_currentUser = alice, c_historicalAnalyses = []\<rparr> alice_analysed) =
      Some ''Failed to analyze''"
proof -
  have a: "awaited rejecting leaf_png = Inl (Error ''Failed to analyze'')"
    by (simp add: awaited_def rejecting_def)
  have b: "awaited rejecting_other leaf_png = Inl NonError"
    by (simp add: awaited_def rejecting_other_def)
  from alice_ready_fields have i: "imagePreview alice_ready = Some leaf_png"
    and n: "leaf_png \<noteq> []" and u: "currentUser alice_ready = Some alice"
    and h: "historicalAnalyses alice_ready = []" by simp_all
  from startAnalysis_failure [OF i n u a, where now_id = 2000 and now_ts = 2001 and ?st2.0 = alice_ready]
       startAnalysis_failure [OF i n u b, where now_id = 2000 and now_ts = 2001 and ?st2.0 = alice_ready]
       startAnalysis_failure [OF i n u a, where now_id = 3000 and now_ts = 3001 and ?st2.0 = alice_analysed]
       i n u a b h
  show ?thesis by simp
qed

text \<open>
  C6, as the code has it. An accepted click whose awaited calls resolve, handled to its
  end with no other handler in between, puts exactly one record in front of the history
  the component holds. The record carries the email of the current user of the click,
  the result, the image, and as timestamp the clock reading at completion: it is at
  least every timestamp already recorded whenever that reading is. When the write to the
  storage succeeds, the new history is persisted and no error is left; when it throws,
  the storage keeps its old value and the error is set to the message of what was thrown.
\<close>

theorem successful_analysis_record:
  assumes "imagePreview st = Some img" and "img \<noteq> []" and "currentUser st = Some u"
    and "awaited svc img = Inr result"
  shows "historicalAnalyses (handleAnalyzeClick svc now_id now_ts st) =
           \<lparr>analysis_id = ''analysis-'' @ number_toString now_id, userEmail = email u,
            analysis = result, timestamp = now_ts, imageUrl = img\<rparr> # historicalAnalyses st
       \<and> analysisResult (handleAnalyzeClick svc now_id now_ts st) = Some result
       \<and> isLoading (handleAnalyzeClick svc now_id now_ts st) = False
       \<and> (setItem_analyses svc
             (\<lparr>analysis_id = ''analysis-'' @ number_toString now_id, userEmail = email u,
               analysis = result, timestamp = now_ts, imageUrl = img\<rparr> # historicalAnalyses st) = None
           \<longrightarrow> plant_health_analyses (localStorage (handleAnalyzeClick svc now_id now_ts st)) =
                 Some (historicalAnalyses (handleAnalyzeClick svc now_id now_ts st))
             \<and> error (handleAnalyzeClick svc now_id now_ts st) = None)
       \<and> (setItem_analyses svc
             (\<lparr>analysis_id = ''analysis-'' @ number_toString now_id, userEmail = email u,
               analysis = result, timestamp = now_ts, imageUrl = img\<rparr> # historicalAnalyses st) = Some thrown
           \<longrightarrow> localStorage (handleAnalyzeClick svc now_id now_ts st) = localStorage st
             \<and> error (handleAnalyzeClick svc now_id now_ts st) =
                 Some (case thrown of Error message \<Rightarrow> message
                                    | NonError \<Rightarrow> ''An unknown error occurred during analysis.''))
       \<and> ((\<forall>h\<in>set (historicalAnalyses st). timestamp h \<le> now_ts) \<longrightarrow>
            (\<forall>h\<in>set (historicalAnalyses st).
               timestamp h \<le> timestamp (hd (historicalAnalyses (handleAnalyzeClick svc now_id now_ts st)))))"
  using begin_accepted [OF assms(1-3)] assms(4)
  by (auto simp: handleAnalyzeClick_def handleAnalyzeClick_finish_def newAnalysis_def Let_def
      error_message_def split: option.splits)

theorem successful_analysis_record_witness:
  "imagePreview alice_analysed = Some leaf_png \<and> leaf_png \<noteq> [] \<and> currentUser alice_analysed = Some alice
 \<and> awaited resolving leaf_png = Inr blight
 \<and> map timestamp (historicalAnalyses alice_analysed) = [2001]
 \<and> historicalAnalyses (handleAnalyzeClick resolving 3000 3001 alice_analysed) =
      \<lparr>analysis_id = ''analysis-3000'', userEmail = ''alice@x.com'', analysis = blight,
       timestamp = 3001, imageUrl = leaf_png\<rparr> # historicalAnalyses alice_analysed
 \<and> map timestamp (historicalAnalyses (handleAnalyzeClick resolving 3000 3001 alice_analysed)) =
      [3001, 2001]
 \<and> plant_health_analyses (localStorage (handleAnalyzeClick resolving 3000 3001 alice_analysed)) =
      Some (historicalAnalyses (handleAnalyzeClick resolving 3000 3001 alice_analysed))
 \<and> error (handleAnalyzeClick resolving 3000 3001 alice_analysed) = None
 \<and> awaited quota_full leaf_png = Inr blight
 \<and> map timestamp (historicalAnalyses (handleAnalyzeClick quota_full 3000 3001 alice_analysed)) =
      [3001, 2001]
 \<and> localStorage (handleAnalyzeClick quota_full 3000 3001 alice_analysed) = localStorage alice_analysed
 \<and> error (handleAnalyzeClick quota_full 3000 3001 alice_analysed) =
      Some ''The quota has been exceeded.''"
proof -
  have i: "imagePreview alice_analysed = Some leaf_png"
    and u: "currentUser alice_analysed = Some alice"
    and t: "map timestamp (historicalAnalyses alice_analysed) = [2001]"
    by (simp_all add: model_defs rendered_numbers)
  have n: "leaf_png \<noteq> []" by (simp add: leaf_png_def)
  have e: "email alice = ''alice@x.com''" by (simp add: alice_def)
  have w: "setItem_analyses resolving hs = None" for hs by (simp add: resolving_def)
  have q: "setItem_analyses quota_full hs = Some (Error ''The quota has been exceeded.'')" for hs
    by (simp add: quota_full_def)
  from successful_analysis_record [OF i n u awaited_resolving, where now_id = 3000 and now_ts = 3001]
       successful_analysis_record [OF i n u awaited_quota_full, where now_id = 3000 and now_ts = 3001
         and thrown = "Error ''The quota has been exceeded.''"]
       i n u t e w q
  show ?thesis by (simp add: awaited_resolving awaited_quota_full rendered_numbers)
qed

text \<open>
  Two analyses of alice resolve, the first when the clock reads 5000; the clock is then
  set back, and the second resolves when it reads 4000: the record in front has the
  smaller timestamp.
\<close>

theorem successful_analysis_record_counterexample:
  "analysisResult (handleAnalyzeClick resolving 5000 5000 alice_ready) = Some blight
 \<and> analysisResult (handleAnalyzeClick resolving 4000 4000
       (handleAnalyzeClick resolving 5000 5000 alice_ready)) = Some blight
 \<and> map timestamp (historicalAnalyses (handleAnalyzeClick resolving 4000 4000
       (handleAnalyzeClick resolving 5000 5000 alice_ready))) = [4000, 5000]
 \<and> timestamp (hd (historicalAnalyses (handleAnalyzeClick resolving 4000 4000
       (handleAnalyzeClick resolving 5000 5000 alice_ready))))
     < timestamp (hd (historicalAnalyses (handleAnalyzeClick resolving 5000 5000 alice_ready)))"
  by (simp add: model_defs)




section \<open>The history store\<close>

text \<open>
  C3, as the code has it. After any run, each click of it handled to its end before the
  next call, the history the component holds is the old history with the records the run
  created in front of it, the newest first. The id of each created record is \<open>analysis-\<close>
  followed by the decimal rendering of the reading of \<open>Date.now()\<close> at its creation. So
  the ids of the created records are pairwise distinct exactly when these readings are;
  they are the renderings of numbers that increase strictly in creation order exactly
  when the readings do; and all ids of the history are distinct exactly when the
  readings are distinct, the ids of the old history are distinct, and no new id is an
  old one.
\<close>

theorem history_order_and_ids:
  "historicalAnalyses (run evs st) = rev (map snd (completions evs st)) @ historicalAnalyses st
 \<and> map analysis_id (map snd (completions evs st)) =
     map (\<lambda>t. ''analysis-'' @ number_toString t) (map fst (completions evs st))
 \<and> distinct (map analysis_id (map snd (completions evs st))) = distinct (map fst (completions evs st))
 \<and> (\<exists>ts. map analysis_id (map snd (completions evs st)) =
            map (\<lambda>t. ''analysis-'' @ number_toString t) ts \<and> sorted_wrt (<) ts)
     = sorted_wrt (<) (map fst (completions evs st))
 \<and> distinct (map analysis_id (historicalAnalyses (run evs st))) =
     (distinct (map fst (completions evs st))
      \<and> distinct (map analysis_id (historicalAnalyses st))
      \<and> set (map analysis_id (map snd (completions evs st))) \<inter>
          set (map analysis_id (historicalAnalyses st)) = {})
 \<and> (historicalAnalyses st = [] \<and> sorted_wrt (<) (map fst (completions evs st)) \<longrightarrow>
      distinct (map analysis_id (historicalAnalyses (run evs st))))"
proof -
  let ?new = "map analysis_id (map snd (completions evs st))"
  let ?readings = "map fst (completions evs st)"
  have ids: "?new = map (\<lambda>t. ''analysis-'' @ number_toString t) ?readings"
    using completions_ids [of evs st] by simp
  have dist: "distinct ?new = distinct ?readings"
    unfolding ids by (rule distinct_analysis_ids)
  have incr: "(\<exists>ts. ?new = map (\<lambda>t. ''analysis-'' @ number_toString t) ts \<and> sorted_wrt (<) ts)
     = sorted_wrt (<) ?readings"
  proof
    assume "\<exists>ts. ?new = map (\<lambda>t. ''analysis-'' @ number_toString t) ts \<and> sorted_wrt (<) ts"
    then obtain ts where e: "?new = map (\<lambda>t. ''analysis-'' @ number_toString t) ts"
      and s: "sorted_wrt (<) ts" by blast
    from e ids have "map (\<lambda>t. ''analysis-'' @ number_toString t) ?readings =
      map (\<lambda>t. ''analysis-'' @ number_toString t) ts" by simp
    then have "?readings = ts" by (rule analysis_ids_determine_readings)
    with s show "sorted_wrt (<) ?readings" by simp
  next
    assume "sorted_wrt (<) ?readings"
    with ids show "\<exists>ts. ?new = map (\<lambda>t. ''analysis-'' @ number_toString t) ts \<and> sorted_wrt (<) ts"
      by blast
  qed
  have all: "map analysis_id (historicalAnalyses (run evs st)) =
     rev ?new @ map analysis_id (historicalAnalyses st)"
    by (simp add: run_history rev_map)
  have whole: "distinct (map analysis_id (historicalAnalyses (run evs st))) =
     (distinct ?readings \<and> distinct (map analysis_id (historicalAnalyses st))
      \<and> set ?new \<inter> set (map analysis_id (historicalAnalyses st)) = {})"
    unfolding all using dist by simp
  have strict: "distinct ?readings" if "sorted_wrt (<) ?readings"
    using that by (simp add: strict_sorted_iff)
  have empty: "distinct (map analysis_id (historicalAnalyses (run evs st)))"
    if "historicalAnalyses st = []" "sorted_wrt (<) ?readings"
    using whole strict [OF that(2)] that(1) by simp
  from run_history [of evs st] ids dist incr whole empty show ?thesis by blast
qed

theorem history_order_and_ids_witness:
  "historicalAnalyses alice_ready = []
 \<and> sorted_wrt (<) (map fst (completions [AnalyzeClick resolving 2000 2001, AnalyzeClick rejecting 2500 2501,
       AnalyzeClick resolving 3000 3001] alice_ready))
 \<and> map analysis_id (historicalAnalyses (run [AnalyzeClick resolving 2000 2001, AnalyzeClick rejecting 2500 2501,
       AnalyzeClick resolving 3000 3001] alice_ready)) = [''analysis-3000'', ''analysis-2000'']
 \<and> distinct (map analysis_id (historicalAnalyses (run [AnalyzeClick resolving 2000 2001, AnalyzeClick rejecting 2500 2501,
       AnalyzeClick resolving 3000 3001] alice_ready)))"
proof -
  let ?evs = "[AnalyzeClick resolving 2000 2001, AnalyzeClick rejecting 2500 2501, AnalyzeClick resolving 3000 3001]"
  have h: "historicalAnalyses alice_ready = []" using alice_ready_fields by simp
  have c: "map fst (completions ?evs alice_ready) = [2000, 3000]"
    by (simp add: model_defs)
  have s: "sorted_wrt (<) (map fst (completions ?evs alice_ready))" unfolding c by simp
  have i: "map analysis_id (historicalAnalyses (run ?evs alice_ready)) = [''analysis-3000'', ''analysis-2000'']"
    by (simp add: model_defs rendered_numbers)
  from history_order_and_ids [of ?evs alice_ready] h s i show ?thesis by blast
qed

text \<open>
  As strings the ids are not in creation order even when the readings are: the id made at
  reading 1000 is smaller than the one made at reading 999.
\<close>

lemma ids_not_in_string_order:
  "(999::int) < 1000 \<and> ''analysis-'' @ number_toString 1000 < ''analysis-'' @ number_toString 999"
  by (simp add: rendered_numbers less_char_def)

text \<open>
  Two analyses of alice resolve while \<open>Date.now()\<close> reads 2000 both times, in the same
  millisecond or after the clock was set back: the two records have the same id.
\<close>

theorem history_order_and_ids_counterexample:
  "map analysis_id (historicalAnalyses
     (run [AnalyzeClick resolving 2000 2000, AnalyzeClick resolving 2000 2001] alice_ready)) =
     [''analysis-2000'', ''analysis-2000'']
 \<and> \<not> distinct (map analysis_id (historicalAnalyses
     (run [AnalyzeClick resolving 2000 2000, AnalyzeClick resolving 2000 2001] alice_ready)))"
  by (simp add: model_defs rendered_numbers)

section \<open>The account registry and the session\<close>

text \<open>
  C7. Registering an email that a stored record already has leaves the storage (so the
  registry) and the current user as they were (an anonymous session stays anonymous) and
  sets the auth error to "An account with this email already exists."; registering any
  other email appends one record with role \<open>user\<close> to the registry, makes its principal
  the current user, persists the session marker and leaves no auth error.
\<close>

theorem register_spec:
  "(list_ex (\<lambda>u. email u = e) (stored_users (localStorage st)) \<longrightarrow>
      stored_users (localStorage (handleRegister e p now st)) = stored_users (localStorage st)
    \<and> localStorage (handleRegister e p now st) = localStorage st
    \<and> currentUser (handleRegister e p now st) = currentUser st
    \<and> authError (handleRegister e p now st) = Some ''An account with this email already exists.'')
 \<and> (\<not> list_ex (\<lambda>u. email u = e) (stored_users (localStorage st)) \<longrightarrow>
      stored_users (localStorage (handleRegister e p now st)) = stored_users (localStorage st) @ [newUser e p now]
    \<and> role (newUser e p now) = user \<and> email (newUser e p now) = e \<and> password (newUser e p now) = p
    \<and> currentUser (handleRegister e p now st) = Some (userData (newUser e p now))
    \<and> plant_health_currentUser (localStorage (handleRegister e p now st)) = Some (userData (newUser e p now))
    \<and> authError (handleRegister e p now st) = None)"
  by (simp add: handleRegister_def Let_def stored_users_def newUser_def)

theorem register_spec_witness:
  "list_ex (\<lambda>u. email u = ''alice@x.com'') (stored_users (localStorage alice_ready))
 \<and> localStorage (handleRegister ''alice@x.com'' ''pw2'' 5000 alice_ready) = localStorage alice_ready
 \<and> authError (handleRegister ''alice@x.com'' ''pw2'' 5000 alice_ready) = Some ''An account with this email already exists.''
 \<and> \<not> list_ex (\<lambda>u. email u = ''bob@x.com'') (stored_users (localStorage alice_ready))
 \<and> stored_users (localStorage (handleRegister ''bob@x.com'' ''pw3'' 5000 alice_ready)) =
      stored_users (localStorage alice_ready) @ [newUser ''bob@x.com'' ''pw3'' 5000]
 \<and> currentUser (handleRegister ''bob@x.com'' ''pw3'' 5000 alice_ready) =
      Some \<lparr>user_id = ''user-5000'', email = ''bob@x.com'', role = user\<rparr>"
proof -
  have d: "list_ex (\<lambda>u. email u = ''alice@x.com'') (stored_users (localStorage alice_ready))"
    by (simp add: model_defs)
  have f: "\<not> list_ex (\<lambda>u. email u = ''bob@x.com'') (stored_users (localStorage alice_ready))"
    by (simp add: model_defs)
  have b: "userData (newUser ''bob@x.com'' ''pw3'' 5000) = \<lparr>user_id = ''user-5000'', email = ''bob@x.com'', role = user\<rparr>"
    by (simp add: userData_def newUser_def rendered_numbers)
  from register_spec [of "''alice@x.com''" alice_ready "''pw2''" 5000]
       register_spec [of "''bob@x.com''" alice_ready "''pw3''" 5000] d f b
  show ?thesis by simp
qed



text \<open>
  C9. In every session, whatever sessions came before it since the storage was empty,
  and after every sequence of handler calls in it, the registry contains the seeded
  record \<open>adminUser\<close>, so a record with role \<open>admin\<close>; the registry after the calls is the
  registry at boot with records appended.
\<close>

theorem registry_keeps_admin:
  "adminUser \<in> set (stored_users (localStorage (run evs (boot (lifetime ss empty_storage)))))
 \<and> list_ex (\<lambda>u. role u = admin) (stored_users (localStorage (run evs (boot (lifetime ss empty_storage)))))
 \<and> (\<exists>added. stored_users (localStorage (run evs (boot (lifetime ss empty_storage)))) =
      stored_users (localStorage (boot (lifetime ss empty_storage))) @ added)"
proof -
  let ?ls = "lifetime ss empty_storage"
  have "plant_health_users empty_storage = None" by (simp add: empty_storage_def)
  then have "plant_health_users ?ls = None \<or> adminUser \<in> set (stored_users ?ls)"
    by (intro lifetime_seeded) simp
  then have "adminUser \<in> set (stored_users (session evs ?ls))" by (rule session_seeded)
  then have m: "adminUser \<in> set (stored_users (localStorage (run evs (boot ?ls))))"
    by (simp add: session_def)
  have "role adminUser = admin" by (simp add: adminUser_def)
  with m have "list_ex (\<lambda>u. role u = admin) (stored_users (localStorage (run evs (boot ?ls))))"
    unfolding list_ex_iff by blast
  with m run_registry_grows [of evs "boot ?ls"] show ?thesis by simp
qed

theorem registry_keeps_admin_witness:
  "list_ex (\<lambda>u. role u = admin)
     (stored_users (localStorage (run [Logout, Register ''bob@x.com'' ''pw3'' 7000, Logout,
        Login ''admin@plant.health'' ''admin123'']
       (boot (lifetime [[Register ''alice@x.com'' ''pw1'' 1000, Logout]] empty_storage)))))
 \<and> map email (stored_users (localStorage (run [Logout, Register ''bob@x.com'' ''pw3'' 7000, Logout,
        Login ''admin@plant.health'' ''admin123'']
       (boot (lifetime [[Register ''alice@x.com'' ''pw1'' 1000, Logout]] empty_storage)))))
     = [''admin@plant.health'', ''alice@x.com'', ''bob@x.com'']"
proof -
  have e: "map email (stored_users (localStorage (run [Logout, Register ''bob@x.com'' ''pw3'' 7000, Logout,
        Login ''admin@plant.health'' ''admin123'']
       (boot (lifetime [[Register ''alice@x.com'' ''pw1'' 1000, Logout]] empty_storage)))))
     = [''admin@plant.health'', ''alice@x.com'', ''bob@x.com'']"
    by (simp add: model_defs)
  from registry_keeps_admin [of "[Logout, Register ''bob@x.com'' ''pw3'' 7000, Logout,
        Login ''admin@plant.health'' ''admin123'']" "[[Register ''alice@x.com'' ''pw1'' 1000, Logout]]"] e
  show ?thesis by blast
qed

end
